theory Spec2Isabelle
  imports Main "HOL-Library.Sublist" "HOL-Library.Char_ord" "HOL-Library.List_Lexorder" "HOL-Library.AList"
begin

section \<open>The manual dister (package dister)\<close>

text \<open>
  \<^verbatim>\<open>type manualDister struct { Extension string }\<close>
\<close>

record manualDister =
  Extension :: string

text \<open>
  An \<^verbatim>\<open>os.FileInfo\<close>, reduced to the two methods the program calls.
\<close>

record fileInfo =
  Name :: string
  IsDir :: bool

text \<open>
  The three outcomes of \<^verbatim>\<open>fi, err := os.Stat(p)\<close>: a file info with a nil error, a nil
  file info with an error for which \<^verbatim>\<open>os.IsNotExist\<close> holds, and a nil file info with any
  other error (permission denied, a path component that is not a directory, a name that is
  too long).
\<close>

datatype statResult = StatOk fileInfo | StatNotExist | StatOtherError

text \<open>
  The results of \<^verbatim>\<open>GenerateDistArtifacts\<close>: a nil error, one of its errors, or the run-time
  panic of a method call on a nil \<^verbatim>\<open>os.FileInfo\<close>.
\<close>

datatype distError =
    MustProduceSingleArtifact
  | ExpectedOutputDoesNotExist string
  | OutputIsDirectory string

datatype distResult = NilError | Error distError | NilDereferencePanic

text \<open>
  \<^verbatim>\<open>productTaskOutputInfo.Product.DistOutputInfos.DistInfos[distID].DistNameTemplateRendered\<close>:
  a Go map indexed by the dist ID; a missing key reads as the zero value, whose rendered
  name is the empty string.
\<close>

type_synonym distID = string

record productTaskOutputInfo =
  DistInfos :: "distID \<rightharpoonup> string"

definition DistNameTemplateRendered :: "productTaskOutputInfo \<Rightarrow> distID \<Rightarrow> string" where
  "DistNameTemplateRendered info distID =
     (case DistInfos info distID of None \<Rightarrow> [] | Some rendered \<Rightarrow> rendered)"

text \<open>
  \<^verbatim>\<open>func (d *manualDister) Artifacts(renderedNameTemplate string) ([]string, error)\<close>
\<close>

definition Artifacts :: "manualDister \<Rightarrow> string \<Rightarrow> distError + string list" where
  "Artifacts d renderedNameTemplate =
     (let outputFileName =
            (if Extension d \<noteq> [] then renderedNameTemplate @ ''.'' @ Extension d
             else renderedNameTemplate)
      in Inr [outputFileName])"

text \<open>
  \<^verbatim>\<open>func (d *manualDister) GenerateDistArtifacts(distID, productTaskOutputInfo, runDistResult) error\<close>.
  The file system enters through \<open>stat\<close>, the outcome of \<^verbatim>\<open>os.Stat\<close> for each path.
  The source tests \<^verbatim>\<open>os.IsNotExist(err)\<close> only, and then calls \<^verbatim>\<open>fi.IsDir()\<close>.
\<close>

definition GenerateDistArtifacts ::
  "manualDister \<Rightarrow> distID \<Rightarrow> productTaskOutputInfo \<Rightarrow> (string \<Rightarrow> statResult) \<Rightarrow> distResult" where
  "GenerateDistArtifacts d distID info stat =
     (case Artifacts d (DistNameTemplateRendered info distID) of
        Inl err \<Rightarrow> Error err
      | Inr artifactPaths \<Rightarrow>
          if length artifactPaths \<noteq> 1 then Error MustProduceSingleArtifact
          else
            (case stat (hd artifactPaths) of
               StatNotExist \<Rightarrow> Error (ExpectedOutputDoesNotExist (hd artifactPaths))
             | StatOtherError \<Rightarrow> NilDereferencePanic
             | StatOk fi \<Rightarrow>
                 if IsDir fi then Error (OutputIsDirectory (hd artifactPaths))
                 else NilError))"

text \<open>The one path the manual dister declares for a product.\<close>

definition artifactPath :: "manualDister \<Rightarrow> distID \<Rightarrow> productTaskOutputInfo \<Rightarrow> string" where
  "artifactPath d distID info =
     (if Extension d \<noteq> [] then DistNameTemplateRendered info distID @ ''.'' @ Extension d
      else DistNameTemplateRendered info distID)"

text \<open>
  A stat function for the examples: \<^verbatim>\<open>os.Stat\<close> fails on the declared artifact with an
  error other than "does not exist" (the directory \<^verbatim>\<open>locked\<close> cannot be searched), and
  reports every other path as absent.
\<close>

definition lockedStat :: "string \<Rightarrow> statResult" where
  "lockedStat p = (if p = ''locked/product-1.0.0.tgz'' then StatOtherError else StatNotExist)"

definition tgzDister :: manualDister where
  "tgzDister = \<lparr>Extension = ''tgz''\<rparr>"

definition lockedInfo :: productTaskOutputInfo where
  "lockedInfo = \<lparr>DistInfos = [''manual-dist'' \<mapsto> ''locked/product-1.0.0'']\<rparr>"

section \<open>Go's path and strings functions\<close>

text \<open>
  \<^verbatim>\<open>strings.Contains(s, substr)\<close>: \<open>substr\<close> occurs in \<open>s\<close> as a contiguous run of bytes.
\<close>

fun strings_Contains :: "string \<Rightarrow> string \<Rightarrow> bool" where
  "strings_Contains [] substr = (substr = [])"
| "strings_Contains (c # s) substr = (prefix substr (c # s) \<or> strings_Contains s substr)"

text \<open>The elements of a path between its slashes, and a path from its elements.\<close>

fun splitSlash :: "string \<Rightarrow> string list" where
  "splitSlash [] = [[]]"
| "splitSlash (c # cs) =
     (if c = CHR ''/'' then [] # splitSlash cs
      else (case splitSlash cs of e # es \<Rightarrow> (c # e) # es | [] \<Rightarrow> [[c]]))"

fun joinSlash :: "string list \<Rightarrow> string" where
  "joinSlash [] = []"
| "joinSlash [e] = e"
| "joinSlash (e # es) = e @ CHR ''/'' # joinSlash es"

text \<open>
  \<^verbatim>\<open>path.Clean\<close>, element by element: empty elements (repeated slashes) and \<^verbatim>\<open>.\<close> are
  dropped; \<^verbatim>\<open>..\<close> removes the element written before it when there is one that is not
  itself \<^verbatim>\<open>..\<close>, is dropped at the start of a rooted path, and is kept at the start of a
  relative one. \<open>out\<close> holds the elements written so far, last first.
\<close>

fun cleanElems :: "bool \<Rightarrow> string list \<Rightarrow> string list \<Rightarrow> string list" where
  "cleanElems rooted out [] = rev out"
| "cleanElems rooted out (e # es) =
     (if e = [] \<or> e = ''.'' then cleanElems rooted out es
      else if e = ''..'' then
        (case out of
           [] \<Rightarrow> if rooted then cleanElems rooted [] es else cleanElems rooted [e] es
         | l # out' \<Rightarrow>
             if l = ''..'' then cleanElems rooted (e # out) es
             else cleanElems rooted out' es)
      else cleanElems rooted (e # out) es)"

definition path_Clean :: "string \<Rightarrow> string" where
  "path_Clean p =
     (if p = [] then ''.''
      else
        let rooted = (hd p = CHR ''/'');
            body = joinSlash (cleanElems rooted [] (splitSlash p))
        in if rooted then CHR ''/'' # body
           else if body = [] then ''.'' else body)"

text \<open>
  \<^verbatim>\<open>path.Split\<close> cuts after the final slash; \<^verbatim>\<open>path.Dir\<close> cleans the first half;
  \<^verbatim>\<open>path.Base\<close> is the last element, after trailing slashes are stripped;
  \<^verbatim>\<open>path.Join\<close> ignores leading empty elements, joins the rest with slashes and cleans
  the result, and is the empty string when every element is empty.
\<close>

definition path_Split :: "string \<Rightarrow> string \<times> string" where
  "path_Split p =
     (let file = rev (takeWhile (\<lambda>c. c \<noteq> CHR ''/'') (rev p))
      in (take (length p - length file) p, file))"

definition path_Dir :: "string \<Rightarrow> string" where
  "path_Dir p = path_Clean (fst (path_Split p))"

definition path_Base :: "string \<Rightarrow> string" where
  "path_Base p =
     (if p = [] then ''.''
      else
        let stripped = rev (dropWhile (\<lambda>c. c = CHR ''/'') (rev p));
            last = snd (path_Split stripped)
        in if last = [] then ''/'' else last)"

definition path_Join :: "string list \<Rightarrow> string" where
  "path_Join elem =
     (case dropWhile (\<lambda>e. e = []) elem of
        [] \<Rightarrow> []
      | es \<Rightarrow> path_Clean (joinSlash es))"

subsection \<open>\<^verbatim>\<open>path.Dir\<close> shortens a path\<close>

definition sz :: "string list \<Rightarrow> nat" where
  "sz xs = length (concat xs) + length xs"

definition dirMeasure :: "string \<Rightarrow> nat" where
  "dirMeasure p = (if path_Dir p = p then 0 else Suc (length p))"

lemma sz_simps [simp]:
  "sz [] = 0" "sz (x # xs) = Suc (length x + sz xs)" "sz (xs @ ys) = sz xs + sz ys"
  "sz (rev xs) = sz xs"
  by (simp_all add: sz_def length_concat_rev)

lemma splitSlash_ne [simp]: "splitSlash s \<noteq> []"
  by (induction s) (auto split: list.splits)

lemma sz_splitSlash: "sz (splitSlash s) = Suc (length s)"
  by (induction s) (auto split: list.splits)

lemma length_joinSlash: "length (joinSlash xs) = sz xs - 1"
  by (induction xs rule: joinSlash.induct) auto

lemma sz_cleanElems:
  "sz (cleanElems r out es) + length (filter (\<lambda>e. e = []) es) \<le> sz out + sz es"
  by (induction r out es rule: cleanElems.induct) (auto split: list.splits)

lemma splitSlash_append_slash: "splitSlash (xs @ ''/'') = splitSlash xs @ [[]]"
  by (induction xs) (auto split: list.splits)

lemma length_path_Clean_slash:
  assumes "xs \<noteq> []"
  shows "length (path_Clean (xs @ ''/'')) \<le> length xs"
proof (cases "hd xs = CHR ''/''")
  case True
  then obtain r where xr: "xs = CHR ''/'' # r" using assms by (cases xs) auto
  let ?es = "splitSlash (xs @ ''/'')"
  have "?es = [] # splitSlash r @ [[]]"
    by (simp add: xr splitSlash_append_slash)
  then have "2 \<le> length (filter (\<lambda>e. e = []) ?es)" by simp
  moreover have "sz (cleanElems True [] ?es) + length (filter (\<lambda>e. e = []) ?es) \<le> sz ?es"
    using sz_cleanElems [of True "[]" ?es] by simp
  moreover have "sz ?es = length xs + 2" by (simp add: sz_splitSlash)
  ultimately have "sz (cleanElems True [] ?es) \<le> length xs" by linarith
  moreover have "1 \<le> length xs" using assms by (cases xs) auto
  ultimately show ?thesis using True assms
    by (simp add: path_Clean_def Let_def length_joinSlash hd_append)
next
  case False
  let ?es = "splitSlash (xs @ ''/'')"
  have "?es = splitSlash xs @ [[]]" by (simp add: splitSlash_append_slash)
  then have "1 \<le> length (filter (\<lambda>e. e = []) ?es)" by simp
  moreover have "sz (cleanElems False [] ?es) + length (filter (\<lambda>e. e = []) ?es) \<le> sz ?es"
    using sz_cleanElems [of False "[]" ?es] by simp
  moreover have "sz ?es = length xs + 2" by (simp add: sz_splitSlash)
  ultimately have "sz (cleanElems False [] ?es) \<le> Suc (length xs)" by linarith
  moreover have "1 \<le> length xs" using assms by (cases xs) auto
  ultimately show ?thesis using False assms
    by (auto simp add: path_Clean_def Let_def length_joinSlash hd_append)
qed

lemma fst_path_Split: "fst (path_Split p) = rev (dropWhile (\<lambda>c. c \<noteq> CHR ''/'') (rev p))"
proof -
  let ?P = "\<lambda>c. c \<noteq> CHR ''/''"
  have "rev p = takeWhile ?P (rev p) @ dropWhile ?P (rev p)" by simp
  then have "p = rev (dropWhile ?P (rev p)) @ rev (takeWhile ?P (rev p))"
    by (metis rev_append rev_rev_ident)
  then have "take (length p - length (takeWhile ?P (rev p))) p = rev (dropWhile ?P (rev p))"
    by (metis append_eq_conv_conj length_append add_diff_cancel_right' length_rev)
  then show ?thesis by (simp add: path_Split_def Let_def)
qed

lemma fst_path_Split_cases:
  "fst (path_Split p) = [] \<or> (\<exists>xs. fst (path_Split p) = xs @ ''/'' \<and> length xs < length p)"
proof -
  let ?P = "\<lambda>c. c \<noteq> CHR ''/''"
  let ?d = "dropWhile ?P (rev p)"
  show ?thesis
  proof (cases ?d)
    case Nil
    then show ?thesis by (simp add: fst_path_Split)
  next
    case (Cons c cs)
    then have "c = CHR ''/''" using hd_dropWhile [of ?P "rev p"] by auto
    moreover have "length ?d \<le> length p" using length_dropWhile_le [of ?P "rev p"] by simp
    ultimately show ?thesis using Cons by (auto simp add: fst_path_Split)
  qed
qed

lemma path_Dir_dot [simp]: "path_Dir ''.'' = ''.''"
  by (simp add: path_Dir_def path_Split_def path_Clean_def)

lemma path_Dir_slash [simp]: "path_Dir ''/'' = ''/''"
  by (simp add: path_Dir_def path_Split_def path_Clean_def)

lemma path_Dir_decreases: "path_Dir p \<noteq> p \<Longrightarrow> dirMeasure (path_Dir p) < dirMeasure p"
proof -
  assume ne: "path_Dir p \<noteq> p"
  consider "fst (path_Split p) = []" | "fst (path_Split p) = ''/''"
    | xs where "xs \<noteq> []" "fst (path_Split p) = xs @ ''/''" "length xs < length p"
    using fst_path_Split_cases [of p] by (metis append_Nil)
  then show ?thesis
  proof cases
    case 1
    then have "path_Dir p = ''.''" by (simp add: path_Dir_def path_Clean_def)
    then show ?thesis using ne by (simp add: dirMeasure_def)
  next
    case 2
    then have "path_Dir p = ''/''" by (simp add: path_Dir_def path_Clean_def)
    then show ?thesis using ne by (simp add: dirMeasure_def)
  next
    case 3
    then have "length (path_Dir p) \<le> length xs"
      using length_path_Clean_slash [of xs] by (simp add: path_Dir_def)
    then show ?thesis using 3 ne by (simp add: dirMeasure_def)
  qed
qed

text \<open>
  The directories above a path, nearest first: \<^verbatim>\<open>path.Dir\<close> applied again and again
  until it returns its argument (at \<^verbatim>\<open>/\<close> or \<^verbatim>\<open>.\<close>).
\<close>

function ancestors :: "string \<Rightarrow> string list" where
  "ancestors p = (if path_Dir p = p then [] else path_Dir p # ancestors (path_Dir p))"
  by pat_completeness auto
termination
  by (relation "measure dirMeasure") (auto simp: path_Dir_decreases)

declare ancestors.simps [simp del]

text \<open>\<open>within d p\<close>: \<open>p\<close> is the directory \<open>d\<close> or lies below it.\<close>

definition within :: "string \<Rightarrow> string \<Rightarrow> bool" where
  "within d p = (p = d \<or> d \<in> set (ancestors p))"

section \<open>The file system\<close>

text \<open>
  The state one run of \<^verbatim>\<open>Run\<close> works on. \<open>entries\<close> is the file system: the paths that
  exist, as cleaned path strings, each with the flag "is a directory"; the parent of an
  entry is its \<^verbatim>\<open>path.Dir\<close>. \<open>removals\<close> records, in order, the path of every call of
  \<^verbatim>\<open>os.Remove\<close> and \<^verbatim>\<open>os.RemoveAll\<close> that deleted something. \<open>removedPaths\<close> is the map
  of the same name in \<^verbatim>\<open>Run\<close> (its keys), and \<open>stdout\<close> the lines written to the writer.
\<close>

record state =
  entries :: "(string \<times> bool) list"
  removals :: "string list"
  removedPaths :: "string set"
  stdout :: "string list"

text \<open>
  \<^verbatim>\<open>os.Stat\<close>: the file info of an existing path, or \<open>None\<close> for the error that
  \<^verbatim>\<open>os.IsNotExist\<close> recognises. Permissions and I/O faults are outside this file system.
\<close>

definition os_Stat :: "(string \<times> bool) list \<Rightarrow> string \<Rightarrow> fileInfo option" where
  "os_Stat fs p = map_option (\<lambda>d. \<lparr>Name = path_Base p, IsDir = d\<rparr>) (map_of fs p)"

text \<open>The entries directly inside a directory.\<close>

definition children :: "(string \<times> bool) list \<Rightarrow> string \<Rightarrow> (string \<times> bool) list" where
  "children fs d = filter (\<lambda>(q, k). path_Dir q = d \<and> q \<noteq> d) fs"

text \<open>
  \<^verbatim>\<open>ioutil.ReadDir\<close>: the file infos of the entries of a directory, sorted by name; an
  error (\<open>None\<close>) when the path does not exist or is not a directory.
\<close>

definition ioutil_ReadDir :: "(string \<times> bool) list \<Rightarrow> string \<Rightarrow> fileInfo list option" where
  "ioutil_ReadDir fs d =
     (case map_of fs d of
        Some True \<Rightarrow>
          Some (sort_key Name (map (\<lambda>(q, k). \<lparr>Name = path_Base q, IsDir = k\<rparr>) (children fs d)))
      | _ \<Rightarrow> None)"

text \<open>
  \<^verbatim>\<open>os.Remove\<close> deletes a file or an empty directory; it fails (\<open>None\<close>) on a path that
  does not exist and on a directory that has entries.
\<close>

definition os_Remove :: "string \<Rightarrow> state \<Rightarrow> state option" where
  "os_Remove p st =
     (case map_of (entries st) p of
        None \<Rightarrow> None
      | Some k \<Rightarrow>
          if k \<and> children (entries st) p \<noteq> [] then None
          else Some (st\<lparr>entries := filter (\<lambda>(q, k). q \<noteq> p) (entries st),
                         removals := removals st @ [p]\<rparr>))"

text \<open>
  \<^verbatim>\<open>os.RemoveAll\<close> deletes a path and everything below it, and succeeds when the path does
  not exist. With no permissions in this file system it never fails, so the branches of
  the source that return its error have no counterpart here.
\<close>

definition os_RemoveAll :: "string \<Rightarrow> state \<Rightarrow> state" where
  "os_RemoveAll p st =
     (if map_of (entries st) p = None then st
      else st\<lparr>entries := filter (\<lambda>(q, k). \<not> within p q) (entries st),
              removals := removals st @ [p]\<rparr>)"

section \<open>Package clean\<close>

datatype cleanError =
    FailedToRemove cleanError
  | FailedToReadDirectory string
  | FailedToRemoveFile string
  | RootDirPathDoesNotOccur string string

text \<open>
  \<^verbatim>\<open>type pathInfo struct { rootDir string; isDir bool }\<close>
\<close>

record pathInfo =
  rootDir :: string
  isDir :: bool

text \<open>
  \<^verbatim>\<open>func removeDirIfEmpty(dirPath string, removedPaths map[string]struct{}, dryRun bool) (bool, error)\<close>
\<close>

definition removeDirIfEmpty :: "string \<Rightarrow> bool \<Rightarrow> state \<Rightarrow> (cleanError + bool) \<times> state" where
  "removeDirIfEmpty dirPath dryRun st =
     (if os_Stat (entries st) dirPath = None then (Inr False, st)
      else
        (case ioutil_ReadDir (entries st) dirPath of
           None \<Rightarrow> (Inl (FailedToReadDirectory dirPath), st)
         | Some allFiles \<Rightarrow>
             let dirFiles =
                   (if dryRun
                    then filter (\<lambda>currDirFile.
                           path_Join [dirPath, Name currDirFile] \<notin> removedPaths st) allFiles
                    else allFiles)
             in if length dirFiles \<noteq> 0 then (Inr False, st)
                else
                  let st' = (if \<not> dryRun then os_RemoveAll dirPath st else st)
                  in (Inr True, st'\<lparr>removedPaths := insert dirPath (removedPaths st')\<rparr>)))"

text \<open>
  \<^verbatim>\<open>fmt.Fprintf(stdout, "%s     %s\n", prefix, currPath)\<close> with the prefix \<^verbatim>\<open>[DRY RUN]\<close>;
  \<open>stdout\<close> holds the lines without their newline.
\<close>

definition dryRunLine :: "string \<Rightarrow> string" where
  "dryRunLine p = ''[DRY RUN]     '' @ p"

definition printLine :: "string \<Rightarrow> state \<Rightarrow> state" where
  "printLine l st = st\<lparr>stdout := stdout st @ [l]\<rparr>"

text \<open>
  The inner \<^verbatim>\<open>for\<close> loop of \<^verbatim>\<open>Run\<close> (lines 158 to 178), entered with \<open>currParentDir\<close>
  the path whose parent is examined next. The loop has no bound of its own, so the result
  is an option: \<open>None\<close> when it does not return.
\<close>

partial_function (option) cascade ::
  "bool \<Rightarrow> string \<Rightarrow> string \<Rightarrow> state \<Rightarrow> (cleanError option \<times> state) option" where
  "cascade dryRun root currParentDir st =
     (if path_Dir currParentDir = root then Some (None, st)
      else if os_Stat (entries st) (path_Dir currParentDir) = None then Some (None, st)
      else
        (case removeDirIfEmpty (path_Dir currParentDir) dryRun st of
           (Inl err, st') \<Rightarrow> Some (Some err, st')
         | (Inr removed, st') \<Rightarrow>
             if \<not> removed then Some (None, st')
             else cascade dryRun root (path_Dir currParentDir)
                    (if dryRun then printLine (dryRunLine (path_Dir currParentDir)) st' else st')))"

declare cascade.simps [code]

text \<open>Lines 132 to 147: the report of the path in a dry run, its removal otherwise.\<close>

definition removeTarget :: "bool \<Rightarrow> string \<Rightarrow> pathInfo \<Rightarrow> state \<Rightarrow> cleanError option \<times> state" where
  "removeTarget dryRun currPath info st =
     (if dryRun then (None, printLine (dryRunLine currPath) st)
      else if os_Stat (entries st) currPath \<noteq> None then
        (if isDir info then (None, os_RemoveAll currPath st)
         else
           (case os_Remove currPath st of
              None \<Rightarrow> (Some (FailedToRemoveFile currPath), st)
            | Some st' \<Rightarrow> (None, st')))
      else (None, st))"

text \<open>The body of the loop over \<^verbatim>\<open>sortedPaths\<close> (lines 131 to 186).\<close>

definition cleanPath ::
  "bool \<Rightarrow> string \<Rightarrow> pathInfo \<Rightarrow> state \<Rightarrow> (cleanError option \<times> state) option" where
  "cleanPath dryRun currPath info st =
     (case removeTarget dryRun currPath info st of
        (Some err, st1) \<Rightarrow> Some (Some err, st1)
      | (None, st1) \<Rightarrow>
          let st2 = st1\<lparr>removedPaths := insert currPath (removedPaths st1)\<rparr>
          in if \<not> strings_Contains currPath (rootDir info)
             then Some (Some (RootDirPathDoesNotOccur (rootDir info) currPath), st2)
             else
               (case cascade dryRun (rootDir info) currPath st2 of
                  None \<Rightarrow> None
                | Some (Some err, st3) \<Rightarrow> Some (Some err, st3)
                | Some (None, st3) \<Rightarrow>
                    (case removeDirIfEmpty (rootDir info) dryRun st3 of
                       (Inl err, st4) \<Rightarrow> Some (Some err, st4)
                     | (Inr rootDirRemoved, st4) \<Rightarrow>
                         Some (None,
                           if rootDirRemoved \<and> dryRun
                           then printLine (dryRunLine (rootDir info)) st4 else st4))))"

text \<open>
  \<^verbatim>\<open>removePaths[currPath]\<close>: the map of \<^verbatim>\<open>Run\<close> as an association list; a key that is
  missing reads as the zero \<^verbatim>\<open>pathInfo\<close>.
\<close>

definition lookupPathInfo :: "(string \<times> pathInfo) list \<Rightarrow> string \<Rightarrow> pathInfo" where
  "lookupPathInfo removePaths currPath =
     (case map_of removePaths currPath of
        None \<Rightarrow> \<lparr>rootDir = [], isDir = False\<rparr>
      | Some info \<Rightarrow> info)"

text \<open>The loop over \<^verbatim>\<open>sortedPaths\<close> (lines 130 to 188): the first error ends it.\<close>

fun cleanPaths ::
  "bool \<Rightarrow> (string \<times> pathInfo) list \<Rightarrow> string list \<Rightarrow> state
     \<Rightarrow> (cleanError option \<times> state) option" where
  "cleanPaths dryRun removePaths [] st = Some (None, st)"
| "cleanPaths dryRun removePaths (currPath # sortedPaths) st =
     (case cleanPath dryRun currPath (lookupPathInfo removePaths currPath) st of
        None \<Rightarrow> None
      | Some (Some err, st') \<Rightarrow> Some (Some err, st')
      | Some (None, st') \<Rightarrow> cleanPaths dryRun removePaths sortedPaths st')"

text \<open>
  Lines 117 to 189 of \<^verbatim>\<open>Run\<close>, the part that executes a removal plan: the keys of
  \<^verbatim>\<open>removePaths\<close> are sorted, a dry run prints its header, the map \<^verbatim>\<open>removedPaths\<close>
  starts empty, and the paths are cleaned in order.
\<close>

definition dryRunHeader :: "string \<Rightarrow> string" where
  "dryRunHeader productName = ''[DRY RUN] Clean '' @ productName @ '' will remove paths:''"

definition removeSortedPaths ::
  "string \<Rightarrow> bool \<Rightarrow> (string \<times> pathInfo) list \<Rightarrow> state \<Rightarrow> (cleanError option \<times> state) option" where
  "removeSortedPaths productName dryRun removePaths st =
     (let sortedPaths = sort (map fst removePaths);
          st0 = (if dryRun
                 then printLine (dryRunHeader productName) st
                 else st)
      in cleanPaths dryRun removePaths sortedPaths (st0\<lparr>removedPaths := {}\<rparr>))"

section \<open>Collecting the paths to remove\<close>















section \<open>Notions for the statements, and examples\<close>


text \<open>A state with nothing removed and nothing printed, and what a run leaves behind.\<close>

definition freshState :: "(string \<times> bool) list \<Rightarrow> state" where
  "freshState fs = \<lparr>entries = fs, removals = [], removedPaths = {}, stdout = []\<rparr>"


text \<open>
  The file system of the cascade example: \<^verbatim>\<open>root/a/b/c/file\<close> is the only entry of \<^verbatim>\<open>c\<close>,
  \<^verbatim>\<open>c\<close> the only entry of \<^verbatim>\<open>b\<close>, and \<^verbatim>\<open>a\<close> holds \<^verbatim>\<open>b\<close> and \<^verbatim>\<open>other\<close>.
\<close>

definition cascadeFS :: "(string \<times> bool) list" where
  "cascadeFS =
     [(''.'', True), (''root'', True), (''root/a'', True), (''root/a/other'', False),
      (''root/a/b'', True), (''root/a/b/c'', True), (''root/a/b/c/file'', False)]"


definition cascadePlan :: "(string \<times> pathInfo) list" where
  "cascadePlan = [(''root/a/b/c/file'', \<lparr>rootDir = ''root'', isDir = False\<rparr>)]"








text \<open>
  A well-formed file system: no path is listed twice, every entry is the join of its
  directory and its base name, and the directory of every entry is an entry that is a
  directory.
\<close>

definition wellFormed :: "(string \<times> bool) list \<Rightarrow> bool" where
  "wellFormed fs =
     (distinct (map fst fs) \<and>
      (\<forall>(q, k) \<in> set fs.
          path_Join [path_Dir q, path_Base q] = q \<and>
          (path_Dir q \<noteq> q \<longrightarrow> map_of fs (path_Dir q) = Some True)))"

text \<open>
  What is left of a file system once the paths of \<open>R\<close> have been removed with everything
  below them.
\<close>

definition survivors :: "string set \<Rightarrow> (string \<times> bool) list \<Rightarrow> (string \<times> bool) list" where
  "survivors R fs = filter (\<lambda>(q, k). \<forall>r \<in> R. \<not> within r q) fs"



section \<open>Theorems about the manual dister\<close>

lemma Artifacts_eq: "Artifacts d t = Inr [if Extension d \<noteq> [] then t @ ''.'' @ Extension d else t]"
  by (simp add: Artifacts_def)

lemma GenerateDistArtifacts_stat:
  "GenerateDistArtifacts d distID info stat =
     (case stat (artifactPath d distID info) of
        StatNotExist \<Rightarrow> Error (ExpectedOutputDoesNotExist (artifactPath d distID info))
      | StatOtherError \<Rightarrow> NilDereferencePanic
      | StatOk fi \<Rightarrow>
          if IsDir fi then Error (OutputIsDirectory (artifactPath d distID info)) else NilError)"
  by (simp add: GenerateDistArtifacts_def Artifacts_def artifactPath_def split: statResult.splits)

text \<open>
  C9. For every extension and every rendered name template, \<open>Artifacts\<close> returns a list of
  exactly one element with no error, and \<open>GenerateDistArtifacts\<close> never returns the error
  "manual distribution must produce a single artifact", whatever the configuration, the
  product information and the file system.
\<close>

theorem C9_Artifacts_single:
  "(\<exists>p. Artifacts d renderedNameTemplate = Inr [p]) \<and>
   GenerateDistArtifacts d distID info stat \<noteq> Error MustProduceSingleArtifact"
  by (simp add: GenerateDistArtifacts_stat Artifacts_eq split: statResult.splits)




text \<open>
  C10 fails on the code. When \<^verbatim>\<open>os.Stat\<close> fails with an error other than "does not exist",
  the file info is nil, the \<^verbatim>\<open>os.IsNotExist\<close> test does not return, and \<^verbatim>\<open>fi.IsDir()\<close> is
  called on the nil file info: \<open>GenerateDistArtifacts\<close> neither returns an error nor inspects
  a valid file info.
\<close>

theorem C10_stat_failure_dereferences_nil:
  "GenerateDistArtifacts tgzDister ''manual-dist'' lockedInfo lockedStat = NilDereferencePanic"
  by (simp add: GenerateDistArtifacts_stat artifactPath_def tgzDister_def lockedInfo_def
      DistNameTemplateRendered_def lockedStat_def)

section \<open>The file system and the removal of paths\<close>


lemma ReadDir_None: "ioutil_ReadDir fs d = None \<longleftrightarrow> map_of fs d \<noteq> Some True"
  by (auto simp: ioutil_ReadDir_def split: option.splits bool.splits)

lemma os_Stat_None [simp]: "os_Stat fs p = None \<longleftrightarrow> map_of fs p = None"
  by (simp add: os_Stat_def)

lemma within_refl [simp]: "within d d"
  by (simp add: within_def)

lemma map_of_filter_key:
  "map_of (filter (\<lambda>(q, k). P q) fs) p = (if P p then map_of fs p else None)"
  by (induction fs) auto

lemma entries_RemoveAll:
  "entries (os_RemoveAll p st) = (if map_of (entries st) p = None then entries st
     else filter (\<lambda>(q, k). \<not> within p q) (entries st))"
  by (simp add: os_RemoveAll_def)

lemma map_of_RemoveAll_self: "map_of (entries (os_RemoveAll p st)) p = None"
  by (simp add: entries_RemoveAll map_of_filter_key)





lemma ancestors_measure: "a \<in> set (ancestors p) \<Longrightarrow> dirMeasure a < dirMeasure p"
proof (induction p rule: ancestors.induct)
  case (1 p)
  show ?case
  proof (cases "path_Dir p = p")
    case True
    with "1.prems" show ?thesis by (simp add: ancestors.simps [of p])
  next
    case False
    then have d: "dirMeasure (path_Dir p) < dirMeasure p" by (rule path_Dir_decreases)
    from False "1.prems" have "a = path_Dir p \<or> a \<in> set (ancestors (path_Dir p))"
      by (simp add: ancestors.simps [of p])
    then show ?thesis using d "1.IH" [OF False] by auto
  qed
qed

lemma ancestors_irrefl: "p \<notin> set (ancestors p)"
  using ancestors_measure [of p p] by auto

lemma ancestors_asym: "a \<in> set (ancestors p) \<Longrightarrow> p \<notin> set (ancestors a)"
  using ancestors_measure [of a p] ancestors_measure [of p a] by auto

lemma ancestors_Dir:
  "path_Dir p \<noteq> p \<Longrightarrow> ancestors p = path_Dir p # ancestors (path_Dir p)"
  by (simp add: ancestors.simps [of p])

lemma ancestors_fix: "path_Dir p = p \<Longrightarrow> ancestors p = []"
  by (simp add: ancestors.simps [of p])

lemma ancestors_nonempty_Dir: "a \<in> set (ancestors p) \<Longrightarrow> path_Dir p \<noteq> p"
  by (auto simp: ancestors.simps [of p] split: if_splits)

lemma ancestors_step:
  "a \<in> set (ancestors p) \<Longrightarrow> a = path_Dir p \<or> a \<in> set (ancestors (path_Dir p))"
  by (auto simp: ancestors.simps [of p] split: if_splits)

lemma ancestors_trans:
  "a \<in> set (ancestors p) \<Longrightarrow> b \<in> set (ancestors a) \<Longrightarrow> b \<in> set (ancestors p)"
proof (induction p rule: ancestors.induct)
  case (1 p)
  from "1.prems"(1) have ne: "path_Dir p \<noteq> p" by (rule ancestors_nonempty_Dir)
  from "1.prems"(1) consider "a = path_Dir p" | "a \<in> set (ancestors (path_Dir p))"
    using ancestors_step by blast
  then show ?case
  proof cases
    case 1
    then show ?thesis using "1.prems"(2) ne by (simp add: ancestors_Dir)
  next
    case 2
    then have "b \<in> set (ancestors (path_Dir p))" using "1.IH" [OF ne] "1.prems"(2) by blast
    then show ?thesis using ne by (simp add: ancestors_Dir)
  qed
qed

lemma Dir_in_ancestors: "path_Dir p \<noteq> p \<Longrightarrow> path_Dir p \<in> set (ancestors p)"
  by (simp add: ancestors_Dir)

lemma within_trans: "within a b \<Longrightarrow> within b c \<Longrightarrow> within a c"
  by (auto simp: within_def dest: ancestors_trans)

lemma within_antisym: "within a b \<Longrightarrow> within b a \<Longrightarrow> a = b"
  by (auto simp: within_def dest: ancestors_asym)

lemma within_Dir: "within (path_Dir p) p"
  by (cases "path_Dir p = p") (auto simp: within_def ancestors_Dir)












lemma children_filter:
  "children (filter (\<lambda>(q, k). P q) fs) d = filter (\<lambda>(q, k). P q) (children fs d)"
  by (induction fs) (auto simp: children_def)

lemma sort_key_Nil_iff [simp]: "sort_key f xs = [] \<longleftrightarrow> xs = []"
  by (metis length_0_conv length_sort)

lemma removeDirIfEmpty_absent:
  "map_of (entries st) d = None \<Longrightarrow> removeDirIfEmpty d dryRun st = (Inr False, st)"
  by (simp add: removeDirIfEmpty_def)

lemma removeDirIfEmpty_real:
  "map_of (entries st) d = Some True \<Longrightarrow>
   removeDirIfEmpty d False st =
     (if children (entries st) d = []
      then (Inr True, (os_RemoveAll d st)\<lparr>removedPaths := insert d (removedPaths st)\<rparr>)
      else (Inr False, st))"
  by (simp add: removeDirIfEmpty_def ioutil_ReadDir_def Let_def os_RemoveAll_def)

lemma filter_listing_empty:
  "filter (\<lambda>f. path_Join [d, Name f] \<notin> R)
      (sort_key Name (map (\<lambda>(q, k). \<lparr>Name = path_Base q, IsDir = k\<rparr>) cs)) = [] \<longleftrightarrow>
   (\<forall>(q, k) \<in> set cs. path_Join [d, path_Base q] \<in> R)"
  by (auto simp: filter_empty_conv)

lemma removeDirIfEmpty_dry:
  "map_of (entries st) d = Some True \<Longrightarrow>
   removeDirIfEmpty d True st =
     (if \<forall>(q, k) \<in> set (children (entries st) d). path_Join [d, path_Base q] \<in> removedPaths st
      then (Inr True, st\<lparr>removedPaths := insert d (removedPaths st)\<rparr>)
      else (Inr False, st))"
  using filter_listing_empty [of d "removedPaths st" "children (entries st) d"]
  by (simp add: removeDirIfEmpty_def ioutil_ReadDir_def Let_def del: filter_listing_empty)

lemma within_child:
  "path_Dir q = d \<Longrightarrow> q \<noteq> d \<Longrightarrow> within x q \<longleftrightarrow> q = x \<or> within x d"
  by (auto simp: within_def ancestors_Dir)

lemma not_within_ancestor: "a \<in> set (ancestors p) \<Longrightarrow> \<not> within p a"
  by (auto simp: within_def ancestors_irrefl dest: ancestors_asym)

lemma children_mem:
  "(q, k) \<in> set (children fs d) \<longleftrightarrow> (q, k) \<in> set fs \<and> path_Dir q = d \<and> q \<noteq> d"
  by (auto simp: children_def)


lemma cascade_absent:
  "path_Dir cur \<noteq> root \<Longrightarrow> map_of (entries st) (path_Dir cur) = None \<Longrightarrow>
   cascade dryRun root cur st = Some (None, st)"
  by (subst cascade.simps) simp

lemma cascade_kept:
  "path_Dir cur \<noteq> root \<Longrightarrow> map_of (entries st) (path_Dir cur) \<noteq> None \<Longrightarrow>
   removeDirIfEmpty (path_Dir cur) dryRun st = (Inr False, st') \<Longrightarrow>
   cascade dryRun root cur st = Some (None, st')"
  by (subst cascade.simps) auto

lemma cascade_removed:
  "path_Dir cur \<noteq> root \<Longrightarrow> map_of (entries st) (path_Dir cur) \<noteq> None \<Longrightarrow>
   removeDirIfEmpty (path_Dir cur) dryRun st = (Inr True, st') \<Longrightarrow>
   cascade dryRun root cur st =
     cascade dryRun root (path_Dir cur)
       (if dryRun then printLine (dryRunLine (path_Dir cur)) st' else st')"
  by (subst cascade.simps) auto

lemma map_of_distinct_mem:
  "distinct (map fst fs) \<Longrightarrow> (q, k) \<in> set fs \<Longrightarrow> map_of fs q = Some k"
  by simp

lemma cascade_example_real:
  assumes dist: "distinct (map fst (entries st))"
    and dirs: "path_Dir leaf = c" "path_Dir c = b" "path_Dir b = a" "path_Dir a = root"
    and cc: "children (entries st) c = [(leaf, False)]"
    and cb: "children (entries st) b = [(c, True)]"
    and ca: "(b, True) \<in> set (children (entries st) a)" "(other, k) \<in> set (children (entries st) a)"
             "other \<noteq> b"
    and cr: "(a, True) \<in> set (children (entries st) root)"
    and root: "map_of (entries st) root = Some True"
    and contains: "strings_Contains leaf root"
  shows "\<exists>st'. removeSortedPaths productName False [(leaf, \<lparr>rootDir = root, isDir = False\<rparr>)] st
            = Some (None, st') \<and>
          removals st' = removals st @ [leaf, c, b] \<and> stdout st' = stdout st \<and>
          map_of (entries st') leaf = None \<and> map_of (entries st') c = None \<and>
          map_of (entries st') b = None \<and>
          (\<forall>q. \<not> within b q \<longrightarrow> map_of (entries st') q = map_of (entries st) q) \<and>
          \<not> within b a \<and> \<not> within b root \<and> \<not> within b other"
proof -
  let ?fs = "entries st"
  let ?info = "\<lparr>rootDir = root, isDir = False\<rparr>"
  have fmem: "(leaf, False) \<in> set (children ?fs c)" using cc by simp
  have cmem: "(c, True) \<in> set (children ?fs b)" using cb by simp
  have ne: "leaf \<noteq> c" "c \<noteq> b" "b \<noteq> a" "a \<noteq> root" "other \<noteq> a"
    using fmem cmem ca cr by (auto simp: children_mem dirs)
  have od: "path_Dir other = a" using ca by (simp add: children_mem)
  have m: "map_of ?fs leaf = Some False" "map_of ?fs c = Some True" "map_of ?fs b = Some True"
    "map_of ?fs a = Some True" "map_of ?fs other = Some k"
    using fmem cmem ca cr dist by (auto simp: children_mem)
  have anc: "ancestors leaf = c # ancestors c" "ancestors c = b # ancestors b"
    "ancestors b = a # ancestors a" "ancestors a = root # ancestors root"
    "ancestors other = a # ancestors a"
    using ne dirs od by (simp_all add: ancestors_Dir)
  have nw_c: "\<not> within c b" "\<not> within c a" "\<not> within c root"
    by (rule not_within_ancestor, simp add: anc)+
  have nw_b: "\<not> within b a" "\<not> within b root"
    by (rule not_within_ancestor, simp add: anc)+
  have nw_file: "\<not> within leaf c" "\<not> within leaf b" "\<not> within leaf a" "\<not> within leaf root"
    by (rule not_within_ancestor, simp add: anc)+
  have fne: "leaf \<noteq> b" "leaf \<noteq> a" "leaf \<noteq> root" "c \<noteq> a" "c \<noteq> root" "b \<noteq> root"
    using nw_file nw_c nw_b by auto
  have oc: "other \<noteq> c" "other \<noteq> leaf" using od dirs ne fne by auto
  have nw_o: "\<not> within c other" "\<not> within b other"
    using within_child [OF od ne(5)] nw_c nw_b oc ca(3) by auto
  \<comment> \<open>the states\<close>
  define s0 where "s0 = st\<lparr>removedPaths := {}\<rparr>"
  define s1 where "s1 = s0\<lparr>entries := filter (\<lambda>(q, k). q \<noteq> leaf) ?fs, removals := removals st @ [leaf]\<rparr>"
  define s2 where "s2 = s1\<lparr>removedPaths := insert leaf (removedPaths s1)\<rparr>"
  define s3 where "s3 = (os_RemoveAll c s2)\<lparr>removedPaths := insert c (removedPaths s2)\<rparr>"
  define s4 where "s4 = (os_RemoveAll b s3)\<lparr>removedPaths := insert b (removedPaths s3)\<rparr>"
  have e2: "entries s2 = filter (\<lambda>(q, k). q \<noteq> leaf) ?fs"
    by (simp add: s2_def s1_def)
  have m2: "map_of (entries s2) q = (if q \<noteq> leaf then map_of ?fs q else None)" for q
    by (simp add: e2 map_of_filter_key)
  have e3: "entries s3 = filter (\<lambda>(q, k). \<not> within c q) (entries s2)"
    using m(2) ne by (simp add: s3_def os_RemoveAll_def m2)
  have m3: "map_of (entries s3) q = (if \<not> within c q \<and> q \<noteq> leaf then map_of ?fs q else None)" for q
    by (simp add: e3 map_of_filter_key m2)
  have e4: "entries s4 = filter (\<lambda>(q, k). \<not> within b q) (entries s3)"
    using m(3) nw_c fne by (simp add: s4_def os_RemoveAll_def m3)
  have m4: "map_of (entries s4) q =
      (if \<not> within b q \<and> \<not> within c q \<and> q \<noteq> leaf then map_of ?fs q else None)" for q
    by (simp add: e4 map_of_filter_key m3)
  \<comment> \<open>the removal of the leaf\<close>
  have t: "removeTarget False leaf ?info s0 = (None, s1)"
    using m(1) by (simp add: removeTarget_def os_Remove_def s0_def s1_def)
  \<comment> \<open>the cascade\<close>
  have k2: "children (entries s2) c = []"
    by (simp add: e2 children_filter cc)
  have r2: "removeDirIfEmpty c False s2 = (Inr True, s3)"
    using m(2) ne by (simp add: removeDirIfEmpty_real m2 k2 s3_def)
  have c2: "cascade False root leaf s2 = cascade False root c s3"
    using cascade_removed [of leaf root s2 False s3] r2 m(2) ne fne by (simp add: dirs m2)
  have k3: "children (entries s3) b = []"
    by (simp add: e3 e2 children_filter cb del: filter_filter)
  have r3: "removeDirIfEmpty b False s3 = (Inr True, s4)"
    using m(3) nw_c fne by (simp add: removeDirIfEmpty_real m3 k3 s4_def)
  have c3: "cascade False root c s3 = cascade False root b s4"
    using cascade_removed [of c root s3 False s4] r3 m(3) nw_c fne by (simp add: dirs m3)
  have "(other, k) \<in> set (children (entries s4) a)"
    using ca(2) nw_o oc by (simp add: e4 e3 e2 children_filter del: filter_filter)
  then have k4: "children (entries s4) a \<noteq> []" by auto
  have r4: "removeDirIfEmpty a False s4 = (Inr False, s4)"
    using m(4) nw_c nw_b fne k4 by (simp add: removeDirIfEmpty_real m4)
  have c4: "cascade False root b s4 = Some (None, s4)"
    using cascade_kept [of b root s4 False s4] r4 m(4) nw_c nw_b fne ne by (simp add: dirs m4)
  \<comment> \<open>the root\<close>
  have "(a, True) \<in> set (children (entries s4) root)"
    using cr nw_c nw_b fne by (simp add: e4 e3 e2 children_filter del: filter_filter)
  then have k5: "children (entries s4) root \<noteq> []" by auto
  have r5: "removeDirIfEmpty root False s4 = (Inr False, s4)"
    using root nw_c nw_b fne k5 by (simp add: removeDirIfEmpty_real m4)
  have cp: "cleanPath False leaf ?info s0 = Some (None, s4)"
    using t contains c2 c3 c4 r5 by (simp add: cleanPath_def s2_def)
  have run: "removeSortedPaths productName False [(leaf, ?info)] st = Some (None, s4)"
    using cp by (simp add: removeSortedPaths_def lookupPathInfo_def s0_def)
  have rem2: "removals s2 = removals st @ [leaf]" "stdout s2 = stdout st"
    by (simp_all add: s2_def s1_def s0_def)
  have rem3: "removals s3 = removals s2 @ [c]" "stdout s3 = stdout s2"
    using m(2) ne by (simp_all add: s3_def os_RemoveAll_def m2)
  have rem4: "removals s4 = removals s3 @ [b]" "stdout s4 = stdout s3"
    using m(3) nw_c fne by (simp_all add: s4_def os_RemoveAll_def m3)
  have rem: "removals s4 = removals st @ [leaf, c, b]"
    by (simp add: rem2 rem3 rem4)
  have out: "stdout s4 = stdout st"
    by (simp add: rem2 rem3 rem4)
  have fc: "within b leaf" "within b c"
    by (simp_all add: within_def anc)
  have unch: "\<forall>q. \<not> within b q \<longrightarrow> map_of (entries s4) q = map_of ?fs q"
  proof (intro allI impI)
    fix q assume nb: "\<not> within b q"
    have "within b c" by (rule fc)
    then have "\<not> within c q" using nb within_trans by blast
    moreover have "q \<noteq> leaf" using nb fc by auto
    ultimately show "map_of (entries s4) q = map_of ?fs q" using nb by (simp add: m4)
  qed
  show ?thesis
    using run rem out unch nw_b nw_o(2) fc by (intro exI [of _ s4]) (simp add: m4)
qed

lemma cascade_example_dry:
  assumes dist: "distinct (map fst (entries st))"
    and dirs: "path_Dir leaf = c" "path_Dir c = b" "path_Dir b = a" "path_Dir a = root"
    and cc: "children (entries st) c = [(leaf, False)]"
    and cb: "children (entries st) b = [(c, True)]"
    and ca: "(b, True) \<in> set (children (entries st) a)" "(other, k) \<in> set (children (entries st) a)"
             "other \<noteq> b"
    and cr: "(a, True) \<in> set (children (entries st) root)"
    and root: "map_of (entries st) root = Some True"
    and contains: "strings_Contains leaf root"
    and joins: "path_Join [c, path_Base leaf] = leaf" "path_Join [b, path_Base c] = c"
      "path_Join [a, path_Base other] = other" "path_Join [root, path_Base a] = a"
  shows "\<exists>st'. removeSortedPaths productName True [(leaf, \<lparr>rootDir = root, isDir = False\<rparr>)] st
            = Some (None, st') \<and>
          entries st' = entries st \<and> removals st' = removals st \<and>
          stdout st' = stdout st @
            [dryRunHeader productName, dryRunLine leaf, dryRunLine c, dryRunLine b]"
proof -
  let ?fs = "entries st"
  let ?info = "\<lparr>rootDir = root, isDir = False\<rparr>"
  have fmem: "(leaf, False) \<in> set (children ?fs c)" using cc by simp
  have cmem: "(c, True) \<in> set (children ?fs b)" using cb by simp
  have ne: "leaf \<noteq> c" "c \<noteq> b" "b \<noteq> a" "a \<noteq> root" "other \<noteq> a"
    using fmem cmem ca cr by (auto simp: children_mem dirs)
  have od: "path_Dir other = a" using ca by (simp add: children_mem)
  have m: "map_of ?fs leaf = Some False" "map_of ?fs c = Some True" "map_of ?fs b = Some True"
    "map_of ?fs a = Some True" "map_of ?fs other = Some k"
    using fmem cmem ca cr dist by (auto simp: children_mem)
  have anc: "ancestors leaf = c # ancestors c" "ancestors c = b # ancestors b"
    "ancestors b = a # ancestors a" "ancestors a = root # ancestors root"
    using ne dirs by (simp_all add: ancestors_Dir)
  have nw_c: "\<not> within c b" "\<not> within c a" "\<not> within c root"
    by (rule not_within_ancestor, simp add: anc)+
  have nw_b: "\<not> within b a" "\<not> within b root"
    by (rule not_within_ancestor, simp add: anc)+
  have nw_leaf: "\<not> within leaf c" "\<not> within leaf b" "\<not> within leaf a" "\<not> within leaf root"
    by (rule not_within_ancestor, simp add: anc)+
  have fne: "leaf \<noteq> b" "leaf \<noteq> a" "leaf \<noteq> root" "c \<noteq> a" "c \<noteq> root" "b \<noteq> root"
    using nw_leaf nw_c nw_b by auto
  have oc: "other \<noteq> c" "other \<noteq> leaf" using od dirs ne fne by auto
  define s0 where "s0 = (printLine (dryRunHeader productName) st)\<lparr>removedPaths := {}\<rparr>"
  define s2 where "s2 = (printLine (dryRunLine leaf) s0)\<lparr>removedPaths := {leaf}\<rparr>"
  define s3 where "s3 = printLine (dryRunLine c) (s2\<lparr>removedPaths := {c, leaf}\<rparr>)"
  define s4 where "s4 = printLine (dryRunLine b) (s3\<lparr>removedPaths := {b, c, leaf}\<rparr>)"
  have e: "entries s0 = ?fs" "entries s2 = ?fs" "entries s3 = ?fs" "entries s4 = ?fs"
    by (simp_all add: s0_def s2_def s3_def s4_def printLine_def)
  have rp: "removedPaths s2 = {leaf}" "removedPaths s3 = {c, leaf}" "removedPaths s4 = {b, c, leaf}"
    by (simp_all add: s2_def s3_def s4_def printLine_def)
  have t: "removeTarget True leaf ?info s0 = (None, printLine (dryRunLine leaf) s0)"
    by (simp add: removeTarget_def)
  have r2: "removeDirIfEmpty c True s2 = (Inr True, s2\<lparr>removedPaths := {c, leaf}\<rparr>)"
    using m(2) by (simp add: removeDirIfEmpty_dry e rp cc joins)
  have c2: "cascade True root leaf s2 = cascade True root c s3"
    using cascade_removed [of leaf root s2 True "s2\<lparr>removedPaths := {c, leaf}\<rparr>"] r2 m(2) fne
    by (simp add: dirs e s3_def)
  have r3: "removeDirIfEmpty b True s3 = (Inr True, s3\<lparr>removedPaths := {b, c, leaf}\<rparr>)"
    using m(3) by (simp add: removeDirIfEmpty_dry e rp cb joins)
  have c3: "cascade True root c s3 = cascade True root b s4"
    using cascade_removed [of c root s3 True "s3\<lparr>removedPaths := {b, c, leaf}\<rparr>"] r3 m(3) fne
    by (simp add: dirs e s4_def)
  have r4: "removeDirIfEmpty a True s4 = (Inr False, s4)"
    using m(4) ca(2,3) oc joins(3)
    by (auto simp: removeDirIfEmpty_dry e rp intro!: bexI [of _ "(other, k)"])
  have c4: "cascade True root b s4 = Some (None, s4)"
    using cascade_kept [of b root s4 True s4] r4 m(4) ne by (simp add: dirs e)
  have r5: "removeDirIfEmpty root True s4 = (Inr False, s4)"
    using root cr ne fne joins(4)
    by (auto simp: removeDirIfEmpty_dry e rp intro!: bexI [of _ "(a, True)"])
  have rp0: "removedPaths s0 = {}" by (simp add: s0_def printLine_def)
  have cp: "cleanPath True leaf ?info s0 = Some (None, s4)"
    using t contains c2 c3 c4 r5 by (simp add: cleanPath_def s2_def printLine_def rp0)
  have run: "removeSortedPaths productName True [(leaf, ?info)] st = Some (None, s4)"
    using cp by (simp add: removeSortedPaths_def lookupPathInfo_def s0_def)
  show ?thesis
    using run
    by (intro exI [of _ s4]) (simp add: s4_def s3_def s2_def s0_def printLine_def)
qed

text \<open>
  C2. Let \<open>leaf\<close> be the only entry of the directory \<open>c\<close>, \<open>c\<close> the only entry of \<open>b\<close>, and
  let the directory \<open>a\<close>, an entry of \<open>root\<close>, hold \<open>b\<close> and an unrelated entry \<open>other\<close> (the
  layout \<^verbatim>\<open>root/a/b/c/file\<close> with \<^verbatim>\<open>root/a/other\<close>). Executing the plan that consists
  of \<open>leaf\<close> with the boundary \<open>root\<close> returns without an error and removes exactly \<open>leaf\<close>,
  \<open>c\<close> and \<open>b\<close>, in this order: a dry run reports these three paths and leaves the file
  system as it is; a real run deletes them, and every path outside \<open>b\<close>, in particular
  \<open>a\<close>, \<open>other\<close> and \<open>root\<close>, is left untouched.
\<close>

theorem C2_cascade_correctness:
  assumes "distinct (map fst (entries st))"
    and "path_Dir leaf = c" "path_Dir c = b" "path_Dir b = a" "path_Dir a = root"
    and "children (entries st) c = [(leaf, False)]"
    and "children (entries st) b = [(c, True)]"
    and "(b, True) \<in> set (children (entries st) a)" "(other, k) \<in> set (children (entries st) a)"
        "other \<noteq> b"
    and "(a, True) \<in> set (children (entries st) root)"
    and "map_of (entries st) root = Some True"
    and "strings_Contains leaf root"
    and "path_Join [c, path_Base leaf] = leaf" "path_Join [b, path_Base c] = c"
      "path_Join [a, path_Base other] = other" "path_Join [root, path_Base a] = a"
  shows "\<exists>st'. removeSortedPaths productName dryRun [(leaf, \<lparr>rootDir = root, isDir = False\<rparr>)] st
            = Some (None, st') \<and>
          (if dryRun
           then entries st' = entries st \<and> removals st' = removals st \<and>
                stdout st' = stdout st @
                  [dryRunHeader productName, dryRunLine leaf, dryRunLine c, dryRunLine b]
           else removals st' = removals st @ [leaf, c, b] \<and> stdout st' = stdout st \<and>
                map_of (entries st') leaf = None \<and> map_of (entries st') c = None \<and>
                map_of (entries st') b = None \<and>
                (\<forall>q. \<not> within b q \<longrightarrow> map_of (entries st') q = map_of (entries st) q) \<and>
                \<not> within b a \<and> \<not> within b root \<and> \<not> within b other)"
proof (cases dryRun)
  case True
  then show ?thesis
    using cascade_example_dry [OF assms, of productName] by simp
next
  case False
  then show ?thesis
    using cascade_example_real [OF assms(1-13), of productName] by simp
qed

subsection \<open>A dry run and a real run side by side\<close>

lemma survivors_empty [simp]: "survivors {} fs = fs"
  by (simp add: survivors_def)




lemma wellFormed_join:
  "wellFormed fs \<Longrightarrow> (q, k) \<in> set fs \<Longrightarrow> path_Join [path_Dir q, path_Base q] = q"
  by (auto simp: wellFormed_def)


lemma within_parent: "within d (path_Dir q) \<Longrightarrow> within d q"
  using within_Dir [of q] within_trans by blast

lemma wellFormed_filter_within:
  assumes "wellFormed fs"
  shows "wellFormed (filter (\<lambda>(q, k). \<not> within d q) fs)"
proof -
  let ?fs' = "filter (\<lambda>(q, k). \<not> within d q) fs"
  have d: "distinct (map fst ?fs')"
    using assms by (simp add: wellFormed_def distinct_map_filter)
  have "path_Join [path_Dir q, path_Base q] = q \<and>
        (path_Dir q \<noteq> q \<longrightarrow> map_of ?fs' (path_Dir q) = Some True)"
    if "(q, k) \<in> set ?fs'" for q k
  proof -
    from that have m: "(q, k) \<in> set fs" and nw: "\<not> within d q" by auto
    have "\<not> within d (path_Dir q)" using nw within_parent by blast
    moreover have "path_Dir q \<noteq> q \<longrightarrow> map_of fs (path_Dir q) = Some True"
      using assms m by (auto simp: wellFormed_def)
    ultimately show ?thesis using assms m
      by (auto simp: map_of_filter_key wellFormed_join)
  qed
  then show ?thesis using d by (auto simp: wellFormed_def)
qed





lemma wellFormed_file_leaf:
  "wellFormed fs \<Longrightarrow> map_of fs p = Some False \<Longrightarrow> children fs p = []"
proof (rule ccontr)
  assume wf: "wellFormed fs" and f: "map_of fs p = Some False" and ne: "children fs p \<noteq> []"
  then obtain q k where "(q, k) \<in> set (children fs p)" by (cases "children fs p") auto
  then have "(q, k) \<in> set fs" "path_Dir q = p" "q \<noteq> p" by (simp_all add: children_mem)
  then have "map_of fs p = Some True" using wf by (auto simp: wellFormed_def)
  then show False using f by simp
qed







lemma printLine_fields [simp]:
  "entries (printLine l st) = entries st" "removals (printLine l st) = removals st"
  "removedPaths (printLine l st) = removedPaths st" "stdout (printLine l st) = stdout st @ [l]"
  by (simp_all add: printLine_def)











section \<open>Examples\<close>









lemma cascadeFS_dirs:
  "path_Dir ''root/a/b/c/file'' = ''root/a/b/c''" "path_Dir ''root/a/b/c'' = ''root/a/b''"
  "path_Dir ''root/a/b'' = ''root/a''" "path_Dir ''root/a'' = ''root''"
  "path_Dir ''root/a/other'' = ''root/a''" "path_Dir ''root'' = ''.''"
  by (simp_all add: path_Dir_def path_Split_def path_Clean_def)

lemma cascadeFS_children:
  "children cascadeFS ''root/a/b/c'' = [(''root/a/b/c/file'', False)]"
  "children cascadeFS ''root/a/b'' = [(''root/a/b/c'', True)]"
  "children cascadeFS ''root/a'' = [(''root/a/other'', False), (''root/a/b'', True)]"
  "children cascadeFS ''root'' = [(''root/a'', True)]"
  by (simp_all add: children_def cascadeFS_def cascadeFS_dirs)

lemma cascadeFS_joins:
  "path_Join [''root/a/b/c'', path_Base ''root/a/b/c/file''] = ''root/a/b/c/file''"
  "path_Join [''root/a/b'', path_Base ''root/a/b/c''] = ''root/a/b/c''"
  "path_Join [''root/a'', path_Base ''root/a/other''] = ''root/a/other''"
  "path_Join [''root'', path_Base ''root/a''] = ''root/a''"
  by (simp_all add: path_Join_def path_Base_def path_Split_def path_Clean_def)

theorem C2_witness:
  "(\<exists>st'. removeSortedPaths ''app'' False cascadePlan (freshState cascadeFS) = Some (None, st') \<and>
      removals st' = [''root/a/b/c/file'', ''root/a/b/c'', ''root/a/b''] \<and>
      map_of (entries st') ''root/a'' = Some True \<and> map_of (entries st') ''root'' = Some True \<and>
      map_of (entries st') ''root/a/other'' = Some False) \<and>
   (\<exists>st'. removeSortedPaths ''app'' True cascadePlan (freshState cascadeFS) = Some (None, st') \<and>
      entries st' = cascadeFS \<and>
      stdout st' = [dryRunHeader ''app'', dryRunLine ''root/a/b/c/file'', dryRunLine ''root/a/b/c'',
                    dryRunLine ''root/a/b''])"
proof -
  let ?st = "freshState cascadeFS"
  have e: "entries ?st = cascadeFS" by (simp add: freshState_def)
  have d: "distinct (map fst (entries ?st))" by (simp add: freshState_def cascadeFS_def)
  have r: "map_of (entries ?st) ''root'' = Some True" by (simp add: freshState_def cascadeFS_def)
  have k: "strings_Contains ''root/a/b/c/file'' ''root''" by simp
  have m: "map_of cascadeFS ''root/a'' = Some True" "map_of cascadeFS ''root/a/other'' = Some False"
    "map_of cascadeFS ''root'' = Some True"
    by (simp_all add: cascadeFS_def)
  have l: "removals ?st = []" "stdout ?st = []" by (simp_all add: freshState_def)
  have ch: "children (entries ?st) ''root/a/b/c'' = [(''root/a/b/c/file'', False)]"
    "children (entries ?st) ''root/a/b'' = [(''root/a/b/c'', True)]"
    "(''root/a/b'', True) \<in> set (children (entries ?st) ''root/a'')"
    "(''root/a/other'', False) \<in> set (children (entries ?st) ''root/a'')"
    "''root/a/other'' \<noteq> ''root/a/b''"
    "(''root/a'', True) \<in> set (children (entries ?st) ''root'')"
    by (simp_all add: e cascadeFS_children)
  note c2 = C2_cascade_correctness [OF d cascadeFS_dirs(1-4) ch r k cascadeFS_joins, where productName = "''app''"]
  have real: "\<exists>st'. removeSortedPaths ''app'' False cascadePlan (freshState cascadeFS) = Some (None, st') \<and>
      removals st' = [''root/a/b/c/file'', ''root/a/b/c'', ''root/a/b''] \<and>
      map_of (entries st') ''root/a'' = Some True \<and> map_of (entries st') ''root'' = Some True \<and>
      map_of (entries st') ''root/a/other'' = Some False"
    using c2 [where dryRun = False] m
    by (auto simp: cascadePlan_def e l)
  have dry: "\<exists>st'. removeSortedPaths ''app'' True cascadePlan (freshState cascadeFS) = Some (None, st') \<and>
      entries st' = cascadeFS \<and>
      stdout st' = [dryRunHeader ''app'', dryRunLine ''root/a/b/c/file'', dryRunLine ''root/a/b/c'',
                    dryRunLine ''root/a/b'']"
    using c2 [where dryRun = True]
    by (auto simp: cascadePlan_def e l)
  show ?thesis using real dry by blast
qed




end
